theory Spec2Isabelle
  imports Main "HOL-Library.Signed_Division"
begin

unbundle bit_operations_syntax

section \<open>makofind: the manifest walker of manta-mako\<close>

text \<open>
  The program walks each directory tree named on its command line with \<^verbatim>\<open>nftw\<close> and
  prints one manifest line for every regular file. The model below follows
  \<^verbatim>\<open>src/makofind.c\<close>: the global \<^verbatim>\<open>error\<close> and the two output streams form an explicit
  state, the library calls (\<^verbatim>\<open>printf\<close>, \<^verbatim>\<open>vwarnx\<close>, \<^verbatim>\<open>warn\<close>, \<^verbatim>\<open>nftw\<close>) are functions on that
  state, and what the operating system answers is a parameter.
\<close>

subsection \<open>Constants of the system headers\<close>

text \<open>
  The object kinds and traversal flags of \<^verbatim>\<open><ftw.h>\<close>. The header is not part of the
  repository; the values are the ones shared by the illumos and the GNU header.
\<close>

definition FTW_F :: int where "FTW_F = 0"
definition FTW_D :: int where "FTW_D = 1"
definition FTW_DNR :: int where "FTW_DNR = 2"
definition FTW_NS :: int where "FTW_NS = 3"
definition FTW_SL :: int where "FTW_SL = 4"

definition FTW_PHYS :: int where "FTW_PHYS = 1"
definition FTW_MOUNT :: int where "FTW_MOUNT = 2"

definition MAX_DESCRIPTORS :: int where "MAX_DESCRIPTORS = 10"

subsection \<open>Data\<close>

text \<open>
  \<^verbatim>\<open>struct timespec\<close> and the fields of \<^verbatim>\<open>struct stat\<close> that the program reads or that the
  traversal compares. \<^verbatim>\<open>off_t\<close>, \<^verbatim>\<open>time_t\<close>, \<^verbatim>\<open>long\<close> and \<^verbatim>\<open>blkcnt_t\<close> are signed; the only
  arithmetic on them is a division by two and a sum of smaller magnitude than its operand,
  so no operation of the program can leave the range of the type, and the fields are
  integers.
\<close>

record timespec =
  tv_sec :: int
  tv_nsec :: int

record stat =
  st_dev :: nat
  st_size :: int
  st_mtim :: timespec
  st_blocks :: int

record FTW =
  base :: int
  level :: int

text \<open>
  A diagnostic on standard error: the text of the usage message, the message of
  \<^verbatim>\<open>vwarnx\<close>, or the message of \<^verbatim>\<open>warn\<close>. The library puts the program name in front of
  the last two and the text of \<^verbatim>\<open>errno\<close> behind the last.
\<close>

datatype diag = Usage string | Warnx string | Warn string

text \<open>
  The global \<^verbatim>\<open>error\<close>, and what has been written to standard output (one element for
  each successful \<^verbatim>\<open>printf\<close>) and to standard error.
\<close>

record state =
  error :: int
  stdout :: "string list"
  stderr :: "diag list"

definition init :: state where
  "init = \<lparr>error = 0, stdout = [], stderr = []\<rparr>"

subsection \<open>Formatted output\<close>

text \<open>
  The conversions of \<^verbatim>\<open>printf\<close> that the program's format strings use: \<^verbatim>\<open>%s\<close>, \<^verbatim>\<open>%d\<close>,
  \<^verbatim>\<open>%ld\<close>, with an optional \<^verbatim>\<open>0\<close> flag and a minimum field width.
\<close>

datatype arg = Str string | Num int

definition digit_char :: "nat \<Rightarrow> char" where
  "digit_char d = ''0123456789'' ! (d mod 10)"

fun dec_nat :: "nat \<Rightarrow> string" where
  "dec_nat n = (if n < 10 then [digit_char n] else dec_nat (n div 10) @ [digit_char (n mod 10)])"

declare dec_nat.simps [simp del]

definition conv_d :: "bool \<Rightarrow> nat \<Rightarrow> int \<Rightarrow> string" where
  "conv_d zero w n =
     (let sign = (if n < 0 then ''-'' else '''');
          digits = dec_nat (nat \<bar>n\<bar>);
          pad = w - (length sign + length digits)
      in if zero then sign @ replicate pad (CHR ''0'') @ digits
         else replicate pad (CHR '' '') @ sign @ digits)"

definition conv_s :: "nat \<Rightarrow> string \<Rightarrow> string" where
  "conv_s w x = replicate (w - length x) (CHR '' '') @ x"

definition is_digit :: "char \<Rightarrow> bool" where
  "is_digit c = (48 \<le> (of_char c :: nat) \<and> (of_char c :: nat) \<le> 57)"

definition digit_val :: "char \<Rightarrow> nat" where
  "digit_val c = of_char c - 48"

text \<open>
  The scanner is either copying literal text or inside a conversion specification, of
  which it has seen the \<^verbatim>\<open>0\<close> flag (or not) and the width so far. The length modifier
  \<^verbatim>\<open>l\<close> changes nothing for unbounded integers. A conversion without a matching argument
  is undefined in C; it prints nothing here and no format string of the program has one.
\<close>

datatype fstate = Lit | Dir bool nat

fun c_format_from :: "fstate \<Rightarrow> string \<Rightarrow> arg list \<Rightarrow> string" where
  "c_format_from st [] as = []"
| "c_format_from Lit (c # cs) as =
     (if c = CHR ''%'' then c_format_from (Dir False 0) cs as
      else c # c_format_from Lit cs as)"
| "c_format_from (Dir z w) (c # cs) as =
     (if c = CHR ''0'' \<and> w = 0 then c_format_from (Dir True 0) cs as
      else if is_digit c then c_format_from (Dir z (10 * w + digit_val c)) cs as
      else if c = CHR ''l'' then c_format_from (Dir z w) cs as
      else if c = CHR ''d'' then
        (case as of Num n # as' \<Rightarrow> conv_d z w n @ c_format_from Lit cs as'
                  | _ \<Rightarrow> c_format_from Lit cs as)
      else if c = CHR ''s'' then
        (case as of Str x # as' \<Rightarrow> conv_s w x @ c_format_from Lit cs as'
                  | _ \<Rightarrow> c_format_from Lit cs as)
      else if c = CHR ''%'' then c # c_format_from Lit cs as
      else c_format_from Lit cs as)"

definition c_format :: "string \<Rightarrow> arg list \<Rightarrow> string" where
  "c_format fmt as = c_format_from Lit fmt as"

text \<open>
  \<^verbatim>\<open>printf\<close>: whether the write succeeds is decided outside the program (\<open>wr\<close>). A
  successful call appends the formatted text to standard output and returns its length, a
  failed one returns a negative value.
\<close>

definition printf :: "bool \<Rightarrow> string \<Rightarrow> arg list \<Rightarrow> state \<Rightarrow> int \<times> state" where
  "printf wr fmt as s =
     (if wr then (int (length (c_format fmt as)), s\<lparr>stdout := stdout s @ [c_format fmt as]\<rparr>)
      else (- 1, s))"

definition vwarnx :: "string \<Rightarrow> arg list \<Rightarrow> state \<Rightarrow> state" where
  "vwarnx fmt as s = s\<lparr>stderr := stderr s @ [Warnx (c_format fmt as)]\<rparr>"

definition warn :: "string \<Rightarrow> arg list \<Rightarrow> state \<Rightarrow> state" where
  "warn fmt as s = s\<lparr>stderr := stderr s @ [Warn (c_format fmt as)]\<rparr>"

definition fprintf_stderr :: "string \<Rightarrow> arg list \<Rightarrow> state \<Rightarrow> state" where
  "fprintf_stderr fmt as s = s\<lparr>stderr := stderr s @ [Usage (c_format fmt as)]\<rparr>"

subsection \<open>The visitor\<close>

definition nftw_warn :: "string \<Rightarrow> arg list \<Rightarrow> state \<Rightarrow> state" where
  "nftw_warn fmt as s = (vwarnx fmt as s)\<lparr>error := 1\<rparr>"

definition manifest_fmt :: string where
  "manifest_fmt = ''%s'' @ [CHR 0x09] @ ''%ld'' @ [CHR 0x09] @ ''%ld.%09ld0'' @ [CHR 0x09]
     @ ''%ld'' @ [CHR 0x0A]"

definition logical :: "stat \<Rightarrow> int" where
  "logical st = (st_blocks st sdiv 2) + (st_blocks st smod 2)"

definition nftw_cb :: "bool \<Rightarrow> string \<Rightarrow> stat \<Rightarrow> int \<Rightarrow> FTW \<Rightarrow> state \<Rightarrow> int \<times> state" where
  "nftw_cb wr path st objtype ftw s =
     (if objtype = FTW_F then
        (case printf wr manifest_fmt
                [Str path, Num (st_size st), Num (tv_sec (st_mtim st)),
                 Num (tv_nsec (st_mtim st)), Num (logical st)] s of
           (n, s1) \<Rightarrow>
             if n < 0 then (1, nftw_warn ''Failed to print information for: %s'' [Str path] s1)
             else (0, s1))
      else if objtype = FTW_D \<or> objtype = FTW_SL then (0, s)
      else if objtype = FTW_DNR then (0, nftw_warn ''Unable to read directory: %s'' [Str path] s)
      else if objtype = FTW_NS then (0, nftw_warn ''stat failed at %s'' [Str path] s)
      else (1, nftw_warn ''%s: unknown type (%d)'' [Str path, Num objtype] s))"

subsection \<open>The library traversal\<close>

text \<open>
  One call of the visitor by \<^verbatim>\<open>nftw\<close>: the four arguments of the callback, and whether the
  \<^verbatim>\<open>printf\<close> issued during the call can write to standard output.
\<close>

record visit =
  v_path :: string
  v_stat :: stat
  v_type :: int
  v_ftw :: FTW
  v_wr :: bool

text \<open>
  What \<^verbatim>\<open>nftw\<close> finds for one root: the objects it presents to the callback, in order,
  and whether it then fails on an error of its own (the root cannot be opened, a resource
  is exhausted), in which case it returns \<open>-1\<close>.
\<close>

record walk =
  visits :: "visit list"
  fails :: bool

text \<open>The environment: the walk that \<^verbatim>\<open>nftw\<close> performs for a path, a descriptor limit and flags.\<close>

type_synonym world = "string \<Rightarrow> int \<Rightarrow> int \<Rightarrow> walk"

type_synonym callback = "bool \<Rightarrow> string \<Rightarrow> stat \<Rightarrow> int \<Rightarrow> FTW \<Rightarrow> state \<Rightarrow> int \<times> state"

text \<open>
  Modelled from the spec: \<^verbatim>\<open>nftw\<close> is a library function and not under \<^verbatim>\<open>src/\<close>. The
  Walker invokes the Visitor once per object, in order; once the Visitor signals an abort
  (a non-zero result) the traversal of the root stops immediately and that result is the
  outcome of the walk.
\<close>

fun nftw_visits :: "callback \<Rightarrow> visit list \<Rightarrow> bool \<Rightarrow> state \<Rightarrow> int \<times> state" where
  "nftw_visits fn [] fl s = (if fl then - 1 else 0, s)"
| "nftw_visits fn (v # vs) fl s =
     (case fn (v_wr v) (v_path v) (v_stat v) (v_type v) (v_ftw v) s of
        (r, s1) \<Rightarrow> if r \<noteq> 0 then (r, s1) else nftw_visits fn vs fl s1)"

definition nftw :: "world \<Rightarrow> string \<Rightarrow> callback \<Rightarrow> int \<Rightarrow> int \<Rightarrow> state \<Rightarrow> int \<times> state" where
  "nftw w path fn nfds flags s =
     nftw_visits fn (visits (w path nfds flags)) (fails (w path nfds flags)) s"

subsection \<open>The driver\<close>

text \<open>The \<^verbatim>\<open>for\<close> loop of \<^verbatim>\<open>main\<close> over \<^verbatim>\<open>argv[1]\<close> to \<^verbatim>\<open>argv[argc - 1]\<close>.\<close>

fun roots_loop :: "world \<Rightarrow> string list \<Rightarrow> int \<Rightarrow> state \<Rightarrow> state" where
  "roots_loop w [] flags s = s"
| "roots_loop w (r # rs) flags s =
     (case nftw w r nftw_cb MAX_DESCRIPTORS flags s of
        (ret, s1) \<Rightarrow>
          let s2 = (if ret = - 1
                    then (warn ''An error occured traversing %s'' [Str r] s1)\<lparr>error := 1\<rparr>
                    else s1)
          in if ret = 1 then s2 else roots_loop w rs flags s2)"

definition usage_fmt :: string where
  "usage_fmt = ''usage: %s dir1 dir2 ... dirN'' @ [CHR 0x0A]"

text \<open>
  \<^verbatim>\<open>main\<close>, called with the program name \<^verbatim>\<open>argv[0]\<close> and the remaining arguments, on the
  initial state of the process. The result is the exit status and the final state.
\<close>

definition main :: "world \<Rightarrow> string \<Rightarrow> string list \<Rightarrow> int \<times> state" where
  "main w argv0 roots =
     (let argc = 1 + int (length roots) in
      if argc < 2 then (1, fprintf_stderr usage_fmt [Str argv0] init)
      else
        let flags = FTW_PHYS OR FTW_MOUNT;
            s = roots_loop w roots flags init
        in (error s, s))"

subsection \<open>Vocabulary of the properties\<close>

text \<open>The number that a string of decimal digits denotes.\<close>

definition digits_val :: "string \<Rightarrow> nat" where
  "digits_val cs = foldl (\<lambda>a c. 10 * a + digit_val c) 0 cs"

text \<open>The manifest record of a visited object.\<close>

definition record_of :: "visit \<Rightarrow> string" where
  "record_of v =
     c_format manifest_fmt
       [Str (v_path v), Num (st_size (v_stat v)), Num (tv_sec (st_mtim (v_stat v))),
        Num (tv_nsec (st_mtim (v_stat v))), Num (logical (v_stat v))]"

text \<open>
  The kinds of error of a visit: an object of a kind the visitor does not know, a record
  that cannot be written, and an unreadable directory or a failed \<^verbatim>\<open>stat\<close>.
\<close>

definition unknown_kind :: "int \<Rightarrow> bool" where
  "unknown_kind objtype = (objtype \<notin> {FTW_F, FTW_D, FTW_SL, FTW_DNR, FTW_NS})"

definition emission_fails :: "visit \<Rightarrow> bool" where
  "emission_fails v = (v_type v = FTW_F \<and> \<not> v_wr v)"

definition entry_unreadable :: "visit \<Rightarrow> bool" where
  "entry_unreadable v = (v_type v = FTW_DNR \<or> v_type v = FTW_NS)"

definition aborts :: "visit \<Rightarrow> bool" where
  "aborts v = (unknown_kind (v_type v) \<or> emission_fails v)"

definition visit_error :: "visit \<Rightarrow> bool" where
  "visit_error v = (entry_unreadable v \<or> aborts v)"

text \<open>An error occurs somewhere on a root: in one of its objects, or in the walk itself.\<close>

definition walk_error :: "walk \<Rightarrow> bool" where
  "walk_error wk = (fails wk \<or> list_ex visit_error (visits wk))"

subsection \<open>Example inputs\<close>

definition stat0 :: stat where
  "stat0 = \<lparr>st_dev = 1, st_size = 1048576,
            st_mtim = \<lparr>tv_sec = 1700000000, tv_nsec = 123456789\<rparr>, st_blocks = 2049\<rparr>"

definition ftw0 :: FTW where
  "ftw0 = \<lparr>base = 4, level = 1\<rparr>"

definition file_visit :: "string \<Rightarrow> bool \<Rightarrow> visit" where
  "file_visit p wr = \<lparr>v_path = p, v_stat = stat0, v_type = FTW_F, v_ftw = ftw0, v_wr = wr\<rparr>"

definition odd_visit :: "string \<Rightarrow> int \<Rightarrow> visit" where
  "odd_visit p k = \<lparr>v_path = p, v_stat = stat0, v_type = k, v_ftw = ftw0, v_wr = True\<rparr>"

text \<open>
  Three roots: \<^verbatim>\<open>/r1\<close> holds a regular file, then an object of kind 7, then another regular
  file; \<^verbatim>\<open>/r2\<close> holds one regular file; any other path cannot be opened.
\<close>

definition world1 :: world where
  "world1 path nfds flags =
     (if path = ''/r1'' then
        \<lparr>visits = [file_visit ''/r1/a'' True, odd_visit ''/r1/x'' 7, file_visit ''/r1/b'' True],
         fails = False\<rparr>
      else if path = ''/r2'' then \<lparr>visits = [file_visit ''/r2/f'' True], fails = False\<rparr>
      else \<lparr>visits = [], fails = True\<rparr>)"

text \<open>A root whose first record cannot be written while the second could be.\<close>

definition world2 :: world where
  "world2 path nfds flags =
     \<lparr>visits = [file_visit (path @ ''/a'') False, file_visit (path @ ''/b'') True],
      fails = False\<rparr>"

subsection \<open>The walker of the specification\<close>

text \<open>
  A file system object as a walk meets it: a regular file, a directory (with its own
  \<^verbatim>\<open>stat\<close>, whether it can be read, and its named entries), a symbolic link (with the
  \<^verbatim>\<open>stat\<close> of the link and the object that following the link would lead to), or a name
  whose \<^verbatim>\<open>stat\<close> fails.
\<close>

datatype node =
    File stat
  | Dir stat bool "(string \<times> node) list"
  | Symlink stat node
  | NoStat

definition no_stat :: stat where
  "no_stat = \<lparr>st_dev = 0, st_size = 0, st_mtim = \<lparr>tv_sec = 0, tv_nsec = 0\<rparr>, st_blocks = 0\<rparr>"

definition base_of :: "string \<Rightarrow> int" where
  "base_of path = int (length path) - int (length (takeWhile (\<lambda>c. c \<noteq> CHR ''/'') (rev path)))"

definition mk_visit :: "(string \<Rightarrow> bool) \<Rightarrow> nat \<Rightarrow> string \<Rightarrow> stat \<Rightarrow> int \<Rightarrow> visit" where
  "mk_visit wr lvl path st kind =
     \<lparr>v_path = path, v_stat = st, v_type = kind,
      v_ftw = \<lparr>base = base_of path, level = int lvl\<rparr>, v_wr = wr path\<rparr>"

definition done_walk :: "visit list \<Rightarrow> walk" where
  "done_walk vs = \<lparr>visits = vs, fails = False\<rparr>"

text \<open>
  Modelled from the spec: the traversal that \<^verbatim>\<open>nftw\<close> performs is library code and not
  under \<^verbatim>\<open>src/\<close>. The Walker of the specification is depth-first, physical and confined to
  the device of the root: it visits every object once, a directory before its entries; it
  classifies an object as regular file, directory, symbolic link, unreadable directory or
  \<^verbatim>\<open>stat\<close> failure; it never looks behind a symbolic link; it leaves out every entry whose
  device differs from the root's; and the walk of the root fails when a directory would
  have to be opened beyond the bound on open directory handles. \<open>wr\<close> tells for which paths
  a record can be written to standard output.
\<close>

fun walker :: "int \<Rightarrow> nat \<Rightarrow> (string \<Rightarrow> bool) \<Rightarrow> nat \<Rightarrow> string \<Rightarrow> node \<Rightarrow> walk"
  and walker_entries ::
    "int \<Rightarrow> nat \<Rightarrow> (string \<Rightarrow> bool) \<Rightarrow> nat \<Rightarrow> string \<Rightarrow> (string \<times> node) list \<Rightarrow> walk"
where
  "walker nfds dev wr lvl path (File st) =
     (if st_dev st \<noteq> dev then done_walk []
      else done_walk [mk_visit wr lvl path st FTW_F])"
| "walker nfds dev wr lvl path (Dir st readable entries) =
     (if st_dev st \<noteq> dev then done_walk []
      else if \<not> readable then done_walk [mk_visit wr lvl path st FTW_DNR]
      else if nfds < int lvl + 1 then \<lparr>visits = [], fails = True\<rparr>
      else
        let below = walker_entries nfds dev wr (Suc lvl) path entries
        in \<lparr>visits = mk_visit wr lvl path st FTW_D # visits below, fails = fails below\<rparr>)"
| "walker nfds dev wr lvl path (Symlink st target) =
     (if st_dev st \<noteq> dev then done_walk []
      else done_walk [mk_visit wr lvl path st FTW_SL])"
| "walker nfds dev wr lvl path NoStat = done_walk [mk_visit wr lvl path no_stat FTW_NS]"
| "walker_entries nfds dev wr lvl path [] = done_walk []"
| "walker_entries nfds dev wr lvl path ((name, k) # ks) =
     (let first = walker nfds dev wr lvl (path @ ''/'' @ name) k
      in if fails first then first
         else
           let others = walker_entries nfds dev wr lvl path ks
           in \<lparr>visits = visits first @ visits others, fails = fails others\<rparr>)"

text \<open>
  The walk of a root: the device of the root is the one its \<^verbatim>\<open>stat\<close> shows when the walk
  starts; a root without \<^verbatim>\<open>stat\<close> makes the walk fail at once.
\<close>

fun root_walk :: "int \<Rightarrow> (string \<Rightarrow> bool) \<Rightarrow> string \<Rightarrow> node \<Rightarrow> walk" where
  "root_walk nfds wr path (File st) = walker nfds (st_dev st) wr 0 path (File st)"
| "root_walk nfds wr path (Dir st readable entries) =
     walker nfds (st_dev st) wr 0 path (Dir st readable entries)"
| "root_walk nfds wr path (Symlink st target) =
     walker nfds (st_dev st) wr 0 path (Symlink st target)"
| "root_walk nfds wr path NoStat = \<lparr>visits = [], fails = True\<rparr>"

fun root_dev :: "node \<Rightarrow> nat" where
  "root_dev (File st) = st_dev st"
| "root_dev (Dir st readable entries) = st_dev st"
| "root_dev (Symlink st target) = st_dev st"
| "root_dev NoStat = 0"

text \<open>
  Modelled from the spec: the environment in which \<^verbatim>\<open>nftw\<close>, called with both
  \<^verbatim>\<open>FTW_PHYS\<close> and \<^verbatim>\<open>FTW_MOUNT\<close>, is the Walker of the specification on the file system
  \<open>fs\<close> (the objects that the root paths name). The specification describes no other
  traversal, so what \<^verbatim>\<open>nftw\<close> does without one of the flags is left open (\<open>other\<close>).
\<close>

definition fs_world :: "(string \<Rightarrow> node option) \<Rightarrow> (string \<Rightarrow> bool) \<Rightarrow> world \<Rightarrow> world" where
  "fs_world fs wr other path nfds flags =
     (if flags AND FTW_PHYS \<noteq> 0 \<and> flags AND FTW_MOUNT \<noteq> 0 then
        (case fs path of
           None \<Rightarrow> \<lparr>visits = [], fails = True\<rparr>
         | Some t \<Rightarrow> root_walk nfds wr path t)
      else other path nfds flags)"

text \<open>
  The regular files that can be reached from an object by descending through directories
  only, the file and every directory on the way being on device \<open>dev\<close>:
  \<open>phys dev path t p st\<close> says that below the object \<open>t\<close> found at \<open>path\<close> there is such a
  file with path \<open>p\<close> and \<^verbatim>\<open>stat\<close> \<open>st\<close>. There is no rule for a symbolic link: nothing is
  reached through one.
\<close>

inductive phys :: "nat \<Rightarrow> string \<Rightarrow> node \<Rightarrow> string \<Rightarrow> stat \<Rightarrow> bool" for dev :: nat where
  phys_file: "st_dev st = dev \<Longrightarrow> phys dev path (File st) path st"
| phys_dir:
    "st_dev dst = dev \<Longrightarrow> (name, k) \<in> set entries \<Longrightarrow> phys dev (path @ ''/'' @ name) k p st
     \<Longrightarrow> phys dev path (Dir dst readable entries) p st"

definition file_record :: "string \<Rightarrow> stat \<Rightarrow> string" where
  "file_record p st =
     c_format manifest_fmt
       [Str p, Num (st_size st), Num (tv_sec (st_mtim st)), Num (tv_nsec (st_mtim st)),
        Num (logical st)]"

text \<open>
  A root \<^verbatim>\<open>/a\<close> on device 1 with a regular file \<^verbatim>\<open>f\<close>, a symbolic link \<^verbatim>\<open>l\<close> to a
  directory that holds a file \<^verbatim>\<open>g\<close>, and a directory \<^verbatim>\<open>b\<close> on device 2, a mount point, that
  holds a file \<^verbatim>\<open>h\<close>.
\<close>

definition stat_on :: "nat \<Rightarrow> stat" where
  "stat_on d = stat0\<lparr>st_dev := d\<rparr>"

definition tree1 :: node where
  "tree1 =
     Dir (stat_on 1) True
       [(''f'', File (stat_on 1)),
        (''l'', Symlink (stat_on 1) (Dir (stat_on 1) True [(''g'', File (stat_on 1))])),
        (''b'', Dir (stat_on 2) True [(''h'', File (stat_on 2))])]"

definition fs1 :: "string \<Rightarrow> node option" where
  "fs1 path = (if path = ''/a'' then Some tree1 else None)"

definition quiet :: world where
  "quiet path nfds flags = \<lparr>visits = [], fails = False\<rparr>"

section \<open>Properties\<close>

lemmas FTW_defs = FTW_F_def FTW_D_def FTW_DNR_def FTW_NS_def FTW_SL_def

subsection \<open>Decimal rendering\<close>

lemma digit_char_cases:
  assumes "d < 10"
  shows "is_digit (digit_char d) \<and> digit_val (digit_char d) = d"
proof -
  from assms have "d \<in> {0, 1, 2, 3, 4, 5, 6, 7, 8, 9}" by auto
  then show ?thesis
    by (auto simp: digit_char_def is_digit_def digit_val_def)
qed

lemma dec_nat_digits: "c \<in> set (dec_nat n) \<Longrightarrow> is_digit c"
proof (induction n rule: dec_nat.induct)
  case (1 n)
  show ?case
  proof (cases "n < 10")
    case True
    with "1.prems" show ?thesis
      by (simp add: dec_nat.simps [of n] digit_char_cases)
  next
    case False
    with "1.prems" "1.IH" show ?thesis
      by (auto simp: dec_nat.simps [of n] digit_char_cases)
  qed
qed

lemma digits_val_snoc: "digits_val (cs @ [c]) = 10 * digits_val cs + digit_val c"
  by (simp add: digits_val_def)

lemma digits_val_dec_nat: "digits_val (dec_nat n) = n"
proof (induction n rule: dec_nat.induct)
  case (1 n)
  show ?case
  proof (cases "n < 10")
    case True
    then show ?thesis
      by (simp add: dec_nat.simps [of n] digits_val_def digit_char_cases)
  next
    case False
    with "1.IH" show ?thesis
      by (simp add: dec_nat.simps [of n] digits_val_snoc digit_char_cases)
  qed
qed

lemma digits_val_zeros: "digits_val (replicate k (CHR ''0'') @ cs) = digits_val cs"
  by (induction k) (simp_all add: digits_val_def digit_val_def)

lemma dec_nat_length: "n < 10 ^ Suc k \<Longrightarrow> length (dec_nat n) \<le> Suc k"
proof (induction k arbitrary: n)
  case 0
  then show ?case by (simp add: dec_nat.simps [of n])
next
  case (Suc k)
  show ?case
  proof (cases "n < 10")
    case True
    then show ?thesis by (simp add: dec_nat.simps [of n])
  next
    case False
    from Suc.prems have "n div 10 < 10 ^ Suc k" by (simp add: less_mult_imp_div_less)
    from Suc.IH [OF this] False show ?thesis by (simp add: dec_nat.simps [of n])
  qed
qed

lemma frac_field:
  assumes "0 \<le> n" and "n < 1000000000"
  shows "length (conv_d True 9 n) = 9" and "\<forall>c \<in> set (conv_d True 9 n). is_digit c"
    and "digits_val (conv_d True 9 n) = nat n"
proof -
  from assms have "nat n < 10 ^ Suc 8" by simp
  then have len: "length (dec_nat (nat n)) \<le> 9" using dec_nat_length by fastforce
  from assms have c: "conv_d True 9 n = replicate (9 - length (dec_nat (nat n))) (CHR ''0'') @ dec_nat (nat n)"
    by (simp add: conv_d_def Let_def)
  show "length (conv_d True 9 n) = 9" using len by (simp add: c)
  have "is_digit (CHR ''0'')" by (simp add: is_digit_def)
  then show "\<forall>c \<in> set (conv_d True 9 n). is_digit c"
    by (auto simp: c dec_nat_digits)
  show "digits_val (conv_d True 9 n) = nat n"
    by (simp add: c digits_val_zeros digits_val_dec_nat)
qed

lemma logical_nonneg:
  assumes "0 \<le> st_blocks st"
  shows "logical st = st_blocks st div 2 + st_blocks st mod 2"
  using assms by (simp add: logical_def signed_divide_int_def signed_modulo_int_def sgn_if)

subsection \<open>The format strings of the program\<close>

lemma manifest_format:
  "c_format manifest_fmt [Str p, Num a, Num b, Num c, Num d] =
     p @ [CHR 0x09] @ conv_d False 0 a @ [CHR 0x09] @ conv_d False 0 b @ ''.'' @
     conv_d True 9 c @ ''0'' @ [CHR 0x09] @ conv_d False 0 d @ [CHR 0x0A]"
  by (simp add: c_format_def manifest_fmt_def is_digit_def digit_val_def conv_s_def)

lemma fmt_failed: "c_format ''Failed to print information for: %s'' [Str p] = ''Failed to print information for: '' @ p"
  by (simp add: c_format_def is_digit_def digit_val_def conv_s_def)

lemma fmt_dnr: "c_format ''Unable to read directory: %s'' [Str p] = ''Unable to read directory: '' @ p"
  by (simp add: c_format_def is_digit_def digit_val_def conv_s_def)

lemma fmt_ns: "c_format ''stat failed at %s'' [Str p] = ''stat failed at '' @ p"
  by (simp add: c_format_def is_digit_def digit_val_def conv_s_def)

lemma fmt_unknown: "c_format ''%s: unknown type (%d)'' [Str p, Num k] = p @ '': unknown type ('' @ conv_d False 0 k @ '')''"
  by (simp add: c_format_def is_digit_def digit_val_def conv_s_def)

lemma fmt_traversing: "c_format ''An error occured traversing %s'' [Str p] = ''An error occured traversing '' @ p"
  by (simp add: c_format_def is_digit_def digit_val_def conv_s_def)

lemma fmt_usage: "c_format usage_fmt [Str p] = ''usage: '' @ p @ '' dir1 dir2 ... dirN'' @ [CHR 0x0A]"
  by (simp add: c_format_def usage_fmt_def is_digit_def digit_val_def conv_s_def)

subsection \<open>The visitor, case by case\<close>

lemma cb_file_ok: "nftw_cb True p st FTW_F f s = (0, s\<lparr>stdout := stdout s @ [c_format manifest_fmt
                [Str p, Num (st_size st), Num (tv_sec (st_mtim st)),
                 Num (tv_nsec (st_mtim st)), Num (logical st)]]\<rparr>)"
  by (simp add: nftw_cb_def printf_def)

lemma cb_file_fail: "nftw_cb False p st FTW_F f s = (1, s\<lparr>stderr := stderr s @ [Warnx (''Failed to print information for: '' @ p)], error := 1\<rparr>)"
  by (simp add: nftw_cb_def printf_def nftw_warn_def vwarnx_def fmt_failed)

lemma cb_skip: "k = FTW_D \<or> k = FTW_SL \<Longrightarrow> nftw_cb wr p st k f s = (0, s)"
  by (auto simp: nftw_cb_def FTW_defs)

lemma cb_dnr: "nftw_cb wr p st FTW_DNR f s = (0, s\<lparr>stderr := stderr s @ [Warnx (''Unable to read directory: '' @ p)], error := 1\<rparr>)"
  by (simp add: nftw_cb_def nftw_warn_def vwarnx_def fmt_dnr FTW_defs)

lemma cb_ns: "nftw_cb wr p st FTW_NS f s = (0, s\<lparr>stderr := stderr s @ [Warnx (''stat failed at '' @ p)], error := 1\<rparr>)"
  by (simp add: nftw_cb_def nftw_warn_def vwarnx_def fmt_ns FTW_defs)

lemma cb_unknown: "unknown_kind k \<Longrightarrow> nftw_cb wr p st k f s = (1, s\<lparr>stderr := stderr s @ [Warnx (p @ '': unknown type ('' @ conv_d False 0 k @ '')'')], error := 1\<rparr>)"
  by (simp add: unknown_kind_def nftw_cb_def nftw_warn_def vwarnx_def fmt_unknown)


lemma cb_visit:
  "nftw_cb (v_wr v) (v_path v) (v_stat v) (v_type v) (v_ftw v) s =
     (if v_type v = FTW_F then
        if v_wr v then (0, s\<lparr>stdout := stdout s @ [record_of v]\<rparr>)
        else (1, s\<lparr>stderr := stderr s @ [Warnx (''Failed to print information for: '' @ v_path v)], error := 1\<rparr>)
      else if v_type v = FTW_D \<or> v_type v = FTW_SL then (0, s)
      else if v_type v = FTW_DNR then
        (0, s\<lparr>stderr := stderr s @ [Warnx (''Unable to read directory: '' @ v_path v)], error := 1\<rparr>)
      else if v_type v = FTW_NS then
        (0, s\<lparr>stderr := stderr s @ [Warnx (''stat failed at '' @ v_path v)], error := 1\<rparr>)
      else (1, s\<lparr>stderr := stderr s @ [Warnx (v_path v @ '': unknown type ('' @ conv_d False 0 (v_type v) @ '')'')], error := 1\<rparr>))"
proof (cases "v_type v = FTW_F")
  case True
  then show ?thesis
    using cb_file_ok [of "v_path v" "v_stat v" "v_ftw v" s]
      cb_file_fail [of "v_path v" "v_stat v" "v_ftw v" s]
    by (cases "v_wr v") (simp_all add: record_of_def)
next
  case notF: False
  show ?thesis
  proof (cases "unknown_kind (v_type v)")
    case True
    then show ?thesis
      using cb_unknown [of "v_type v" "v_wr v" "v_path v" "v_stat v" "v_ftw v" s]
      by (simp add: unknown_kind_def)
  next
    case False
    with notF consider "v_type v = FTW_D \<or> v_type v = FTW_SL" | "v_type v = FTW_DNR" | "v_type v = FTW_NS"
      by (auto simp: unknown_kind_def)
    then show ?thesis
    proof cases
      case 1
      then show ?thesis using cb_skip [OF 1] by (auto simp: FTW_defs)
    next
      case 2
      then show ?thesis by (simp add: cb_dnr) (simp add: FTW_defs)
    next
      case 3
      then show ?thesis by (simp add: cb_ns) (simp add: FTW_defs)
    qed
  qed
qed

lemma cb_ret:
  "fst (nftw_cb (v_wr v) (v_path v) (v_stat v) (v_type v) (v_ftw v) s) = (if aborts v then 1 else 0)"
  by (simp add: cb_visit aborts_def unknown_kind_def emission_fails_def FTW_defs)

lemma cb_error:
  "error (snd (nftw_cb (v_wr v) (v_path v) (v_stat v) (v_type v) (v_ftw v) s)) =
     (if visit_error v then 1 else error s)"
  by (auto simp: cb_visit visit_error_def entry_unreadable_def aborts_def unknown_kind_def
      emission_fails_def FTW_defs)

lemma cb_stdout:
  "stdout (snd (nftw_cb (v_wr v) (v_path v) (v_stat v) (v_type v) (v_ftw v) s)) =
     stdout s @ (if v_type v = FTW_F \<and> v_wr v then [record_of v] else [])"
  by (simp add: cb_visit)

subsection \<open>One walk and the loop over the roots\<close>

lemma visits_ret:
  "fst (nftw_visits nftw_cb vs fl s) = (if list_ex aborts vs then 1 else if fl then - 1 else 0)"
proof (induction vs arbitrary: s)
  case Nil
  then show ?case by simp
next
  case (Cons v vs)
  obtain r s1 where c: "nftw_cb (v_wr v) (v_path v) (v_stat v) (v_type v) (v_ftw v) s = (r, s1)"
    by (cases "nftw_cb (v_wr v) (v_path v) (v_stat v) (v_type v) (v_ftw v) s")
  with cb_ret [of v s] have r: "r = (if aborts v then 1 else 0)" by simp
  show ?case using Cons.IH [of s1] by (simp add: c r)
qed

lemma visits_error:
  "error (snd (nftw_visits nftw_cb vs fl s)) = (if list_ex visit_error vs then 1 else error s)"
proof (induction vs arbitrary: s)
  case Nil
  then show ?case by simp
next
  case (Cons v vs)
  obtain r s1 where c: "nftw_cb (v_wr v) (v_path v) (v_stat v) (v_type v) (v_ftw v) s = (r, s1)"
    by (cases "nftw_cb (v_wr v) (v_path v) (v_stat v) (v_type v) (v_ftw v) s")
  with cb_ret [of v s] have r: "r = (if aborts v then 1 else 0)" by simp
  from c cb_error [of v s] have e: "error s1 = (if visit_error v then 1 else error s)" by simp
  show ?case using Cons.IH [of s1] by (simp add: c r e visit_error_def)
qed

lemma visits_stop:
  assumes "\<forall>u \<in> set pre. \<not> aborts u" and "aborts v"
  shows "nftw_visits nftw_cb (pre @ v # post) fl s = nftw_visits nftw_cb (pre @ [v]) fl' s"
  using assms(1)
proof (induction pre arbitrary: s)
  case Nil
  obtain r s1 where c: "nftw_cb (v_wr v) (v_path v) (v_stat v) (v_type v) (v_ftw v) s = (r, s1)"
    by (cases "nftw_cb (v_wr v) (v_path v) (v_stat v) (v_type v) (v_ftw v) s")
  with cb_ret [of v s] assms(2) have "r = 1" by simp
  then show ?case by (simp add: c)
next
  case (Cons u pre)
  obtain r s1 where c: "nftw_cb (v_wr u) (v_path u) (v_stat u) (v_type u) (v_ftw u) s = (r, s1)"
    by (cases "nftw_cb (v_wr u) (v_path u) (v_stat u) (v_type u) (v_ftw u) s")
  with cb_ret [of u s] Cons.prems have "r = 0" by simp
  then show ?case using Cons.IH [of s1] Cons.prems by (simp add: c)
qed

lemma visits_stdout:
  assumes "\<forall>u \<in> set pre. \<not> aborts u" and "aborts v"
  shows "stdout (snd (nftw_visits nftw_cb (pre @ [v]) fl s)) =
           stdout s @ map record_of (filter (\<lambda>u. v_type u = FTW_F) pre)"
  using assms(1)
proof (induction pre arbitrary: s)
  case Nil
  obtain r s1 where c: "nftw_cb (v_wr v) (v_path v) (v_stat v) (v_type v) (v_ftw v) s = (r, s1)"
    by (cases "nftw_cb (v_wr v) (v_path v) (v_stat v) (v_type v) (v_ftw v) s")
  with cb_ret [of v s] assms(2) have r: "r = 1" by simp
  from c cb_stdout [of v s] assms(2) have "stdout s1 = stdout s"
    by (auto simp: aborts_def emission_fails_def unknown_kind_def)
  then show ?case by (simp add: c r)
next
  case (Cons u pre)
  obtain r s1 where c: "nftw_cb (v_wr u) (v_path u) (v_stat u) (v_type u) (v_ftw u) s = (r, s1)"
    by (cases "nftw_cb (v_wr u) (v_path u) (v_stat u) (v_type u) (v_ftw u) s")
  with cb_ret [of u s] Cons.prems have r: "r = 0" by simp
  from c cb_stdout [of u s] Cons.prems
  have "stdout s1 = stdout s @ (if v_type u = FTW_F then [record_of u] else [])"
    by (auto simp: aborts_def emission_fails_def)
  then show ?case using Cons.IH [of s1] Cons.prems by (simp add: c r)
qed

lemma loop_error:
  "error (roots_loop w rs fl s) =
     (if list_ex (\<lambda>r. walk_error (w r MAX_DESCRIPTORS fl)) rs then 1 else error s)"
proof (induction rs arbitrary: s)
  case Nil
  then show ?case by simp
next
  case (Cons r rs)
  let ?wk = "w r MAX_DESCRIPTORS fl"
  obtain ret s1 where n: "nftw w r nftw_cb MAX_DESCRIPTORS fl s = (ret, s1)"
    by (cases "nftw w r nftw_cb MAX_DESCRIPTORS fl s")
  from n visits_ret [of "visits ?wk" "fails ?wk" s]
  have ret: "ret = (if list_ex aborts (visits ?wk) then 1 else if fails ?wk then - 1 else 0)"
    by (simp add: nftw_def)
  from n visits_error [of "visits ?wk" "fails ?wk" s]
  have e: "error s1 = (if list_ex visit_error (visits ?wk) then 1 else error s)"
    by (simp add: nftw_def)
  have ab: "list_ex aborts (visits ?wk) \<Longrightarrow> list_ex visit_error (visits ?wk)"
    by (auto simp: list_ex_iff visit_error_def)
  show ?case
  proof (cases "list_ex aborts (visits ?wk)")
    case True
    with ret e ab show ?thesis by (simp add: n walk_error_def)
  next
    case False
    with ret e show ?thesis
      using Cons.IH by (simp add: n walk_error_def warn_def)
  qed
qed

lemma nftw_ret:
  "fst (nftw w r nftw_cb nfds flags s) =
     (if list_ex aborts (visits (w r nfds flags)) then 1
      else if fails (w r nfds flags) then - 1 else 0)"
  by (simp add: nftw_def visits_ret)

lemma nftw_error:
  "error (snd (nftw w r nftw_cb nfds flags s)) =
     (if list_ex visit_error (visits (w r nfds flags)) then 1 else error s)"
  by (simp add: nftw_def visits_error)

subsection \<open>Evaluating the example inputs\<close>

lemma unknown_7: "unknown_kind 7"
  by (simp add: unknown_kind_def FTW_defs)

lemma dec_7: "conv_d False 0 7 = ''7''"
  by (simp add: conv_d_def dec_nat.simps digit_char_def)

lemma stat0_record:
  "c_format manifest_fmt
     [Str p, Num (st_size stat0), Num (tv_sec (st_mtim stat0)),
      Num (tv_nsec (st_mtim stat0)), Num (logical stat0)] =
   p @ [CHR 0x09] @ ''1048576'' @ [CHR 0x09] @ ''1700000000.1234567890'' @ [CHR 0x09] @
   ''1025'' @ [CHR 0x0A]"
  by (simp add: manifest_format stat0_def conv_d_def dec_nat.simps digit_char_def logical_def
      signed_divide_int_def signed_modulo_int_def)

lemmas run_simps = main_def nftw_def world1_def file_visit_def odd_visit_def init_def
  cb_file_ok cb_unknown unknown_7 dec_7 stat0_record

subsection \<open>The walker of the specification\<close>

lemma record_of_file_record: "record_of v = file_record (v_path v) (v_stat v)"
  by (simp add: record_of_def file_record_def)

lemma walker_files:
  "v \<in> set (visits (walker nfds dev wr lvl path t)) \<Longrightarrow> v_type v = FTW_F \<Longrightarrow>
     phys dev path t (v_path v) (v_stat v)"
  "v \<in> set (visits (walker_entries nfds dev wr lvl path ks)) \<Longrightarrow> v_type v = FTW_F \<Longrightarrow>
     \<exists>name k. (name, k) \<in> set ks \<and> phys dev (path @ ''/'' @ name) k (v_path v) (v_stat v)"
proof (induction nfds dev wr lvl path t and nfds dev wr lvl path ks
    arbitrary: v and v rule: walker_walker_entries.induct)
  case (1 nfds dev wr lvl path st)
  then show ?case
    by (auto simp: done_walk_def mk_visit_def intro: phys_file split: if_splits)
next
  case (2 nfds dev wr lvl path st readable entries)
  from "2.prems" have ok: "st_dev st = dev" "readable" "\<not> nfds < int lvl + 1"
    by (auto simp: done_walk_def mk_visit_def FTW_defs split: if_splits)
  with "2.prems" have "v \<in> set (visits (walker_entries nfds dev wr (Suc lvl) path entries))"
    by (auto simp: Let_def mk_visit_def FTW_defs)
  with "2.IH" ok "2.prems"(2) obtain name k where
    "(name, k) \<in> set entries" "phys dev (path @ ''/'' @ name) k (v_path v) (v_stat v)"
    by blast
  with ok show ?case by (auto intro: phys_dir)
next
  case (3 nfds dev wr lvl path st target)
  then show ?case
    by (auto simp: done_walk_def mk_visit_def FTW_defs split: if_splits)
next
  case (4 nfds dev wr lvl path)
  then show ?case
    by (auto simp: done_walk_def mk_visit_def FTW_defs)
next
  case (5 nfds dev wr lvl path)
  then show ?case by (simp add: done_walk_def)
next
  case (6 nfds dev wr lvl path name k ks)
  let ?first = "walker nfds dev wr lvl (path @ ''/'' @ name) k"
  show ?case
  proof (cases "v \<in> set (visits ?first)")
    case True
    with "6.IH"(1) "6.prems"(2) show ?thesis by auto
  next
    case False
    with "6.prems"(1) have nf: "\<not> fails ?first"
      and rest: "v \<in> set (visits (walker_entries nfds dev wr lvl path ks))"
      by (auto simp: Let_def split: if_splits)
    from "6.IH"(2) [OF refl nf rest "6.prems"(2)] obtain name' k' where
      "(name', k') \<in> set ks" "phys dev (path @ ''/'' @ name') k' (v_path v) (v_stat v)"
      by blast
    then show ?thesis by auto
  qed
qed

lemma root_walk_files:
  assumes "v \<in> set (visits (root_walk nfds wr path t))" and "v_type v = FTW_F"
  shows "phys (root_dev t) path t (v_path v) (v_stat v)"
  using assms walker_files(1) [of v nfds "root_dev t" wr 0 path t]
  by (cases t) simp_all

lemma visits_records:
  "set (stdout (snd (nftw_visits nftw_cb vs fl s))) \<subseteq>
     set (stdout s) \<union> record_of ` {v \<in> set vs. v_type v = FTW_F}"
proof (induction vs arbitrary: s)
  case Nil
  then show ?case by simp
next
  case (Cons v vs)
  obtain r s1 where c: "nftw_cb (v_wr v) (v_path v) (v_stat v) (v_type v) (v_ftw v) s = (r, s1)"
    by (cases "nftw_cb (v_wr v) (v_path v) (v_stat v) (v_type v) (v_ftw v) s")
  with cb_stdout [of v s]
  have s1: "set (stdout s1) \<subseteq> set (stdout s) \<union> record_of ` {u \<in> {v}. v_type u = FTW_F}"
    by auto
  show ?case
  proof (cases "r = 0")
    case True
    with Cons.IH [of s1] s1 show ?thesis by (auto simp: c)
  next
    case False
    with s1 show ?thesis by (auto simp: c)
  qed
qed

lemma loop_records:
  "set (stdout (roots_loop w rs fl s)) \<subseteq>
     set (stdout s) \<union>
     (\<Union>r \<in> set rs. record_of ` {v \<in> set (visits (w r MAX_DESCRIPTORS fl)). v_type v = FTW_F})"
proof (induction rs arbitrary: s)
  case Nil
  then show ?case by simp
next
  case (Cons r rs)
  obtain ret s1 where n: "nftw w r nftw_cb MAX_DESCRIPTORS fl s = (ret, s1)"
    by (cases "nftw w r nftw_cb MAX_DESCRIPTORS fl s")
  with visits_records [of "visits (w r MAX_DESCRIPTORS fl)" "fails (w r MAX_DESCRIPTORS fl)" s]
  have s1: "set (stdout s1) \<subseteq> set (stdout s) \<union>
      record_of ` {v \<in> set (visits (w r MAX_DESCRIPTORS fl)). v_type v = FTW_F}"
    by (simp add: nftw_def)
  let ?s2 = "if ret = - 1 then (warn ''An error occured traversing %s'' [Str r] s1)\<lparr>error := 1\<rparr> else s1"
  have s2: "stdout ?s2 = stdout s1" by (simp add: warn_def)
  show ?case
  proof (cases "ret = 1")
    case True
    with s1 show ?thesis by (auto simp: n)
  next
    case False
    have "roots_loop w (r # rs) fl s = roots_loop w rs fl ?s2"
      using False by (simp add: n)
    with Cons.IH [of ?s2] s1 show ?thesis
      unfolding s2 by (simp only: set_simps UN_insert) blast
  qed
qed

lemma main_flags: "(FTW_PHYS OR FTW_MOUNT) AND FTW_PHYS \<noteq> 0 \<and> (FTW_PHYS OR FTW_MOUNT) AND FTW_MOUNT \<noteq> 0"
  by (simp add: FTW_PHYS_def FTW_MOUNT_def)

lemma walker_dev:
  "v \<in> set (visits (walker nfds dev wr lvl path t)) \<Longrightarrow> v_type v \<noteq> FTW_NS \<Longrightarrow>
     st_dev (v_stat v) = dev"
  "v \<in> set (visits (walker_entries nfds dev wr lvl path ks)) \<Longrightarrow> v_type v \<noteq> FTW_NS \<Longrightarrow>
     st_dev (v_stat v) = dev"
proof (induction nfds dev wr lvl path t and nfds dev wr lvl path ks
    arbitrary: v and v rule: walker_walker_entries.induct)
  case (2 nfds dev wr lvl path st readable entries)
  then show ?case
    by (auto simp: done_walk_def mk_visit_def Let_def split: if_splits)
next
  case (6 nfds dev wr lvl path name k ks)
  then show ?case
    by (auto simp: Let_def split: if_splits)
qed (auto simp: done_walk_def mk_visit_def split: if_splits)

lemma root_walk_dev:
  assumes "v \<in> set (visits (root_walk nfds wr path t))" and "v_type v \<noteq> FTW_NS"
  shows "st_dev (v_stat v) = root_dev t"
  using assms walker_dev(1) [of v nfds "root_dev t" wr 0 path t]
  by (cases t) simp_all

lemma stat_on_record:
  "file_record p (stat_on d) =
     p @ [CHR 0x09] @ ''1048576'' @ [CHR 0x09] @ ''1700000000.1234567890'' @ [CHR 0x09] @
     ''1025'' @ [CHR 0x0A]"
  using stat0_record [of p]
  by (simp add: file_record_def stat_on_def logical_def)

lemma fs1_walk:
  "fs_world fs1 (\<lambda>p. True) quiet ''/a'' MAX_DESCRIPTORS (FTW_PHYS OR FTW_MOUNT) =
     \<lparr>visits = [mk_visit (\<lambda>p. True) 0 ''/a'' (stat_on 1) FTW_D,
                mk_visit (\<lambda>p. True) 1 ''/a/f'' (stat_on 1) FTW_F,
                mk_visit (\<lambda>p. True) 1 ''/a/l'' (stat_on 1) FTW_SL],
      fails = False\<rparr>"
  using main_flags
  by (simp add: fs_world_def fs1_def tree1_def done_walk_def MAX_DESCRIPTORS_def stat_on_def)

lemma fs1_run:
  "main (fs_world fs1 (\<lambda>p. True) quiet) ''makofind'' [''/a''] =
     (0, \<lparr>error = 0, stdout = [file_record ''/a/f'' (stat_on 1)], stderr = []\<rparr>)"
  by (simp add: main_def Let_def nftw_def fs1_walk mk_visit_def cb_file_ok cb_skip init_def
      file_record_def)

section \<open>The claims\<close>

text \<open>
  C2, as amended. For every regular file whose manifest record cannot be written, the visitor
  writes no record, reports \<^verbatim>\<open>Failed to print information for: <path>\<close>, sets the failure
  flag and returns 1, so that the walk of the root stops at this object whatever follows it.
\<close>
theorem emission_failure_aborts:
  "nftw_cb False path st FTW_F ftw s =
     (1, s\<lparr>stderr := stderr s @ [Warnx (''Failed to print information for: '' @ path)],
           error := 1\<rparr>)
   \<and> stdout (snd (nftw_cb False path st FTW_F ftw s)) = stdout s
   \<and> nftw_visits nftw_cb
        (\<lparr>v_path = path, v_stat = st, v_type = FTW_F, v_ftw = ftw, v_wr = False\<rparr> # vs) fl s =
        (1, s\<lparr>stderr := stderr s @ [Warnx (''Failed to print information for: '' @ path)],
              error := 1\<rparr>)"
  by (simp add: cb_file_fail)

text \<open>
  C2 as stated fails: the visitor does not return 0 when the record cannot be written, and
  the next file of the same root, whose record could be written, gets no record.
\<close>
theorem emission_failure_counterexample:
  "fst (nftw_cb False ''/r/a'' stat0 FTW_F ftw0 init) \<noteq> 0
   \<and> visits (world2 ''/r'' MAX_DESCRIPTORS (FTW_PHYS OR FTW_MOUNT)) =
       [file_visit ''/r/a'' False, file_visit ''/r/b'' True]
   \<and> stdout (snd (main world2 ''makofind'' [''/r''])) = []"
  by (simp add: cb_file_fail main_def nftw_def world2_def file_visit_def init_def)

text \<open>
  C3. For every regular file visited, with an allocated count of 512-byte blocks that is not
  negative, the physical-size field of the emitted record is half the count rounded up:
  \<open>blocks div 2\<close> when the count is even, \<open>blocks div 2 + 1\<close> when it is odd; twice the
  field is the count or the count plus one.
\<close>
theorem physical_size_rounds_up:
  assumes "0 \<le> st_blocks st"
  shows "logical st = (if even (st_blocks st) then st_blocks st div 2 else st_blocks st div 2 + 1)
    \<and> 2 * logical st - 1 \<le> st_blocks st \<and> st_blocks st \<le> 2 * logical st
    \<and> nftw_cb True path st FTW_F ftw s =
        (0, s\<lparr>stdout := stdout s @
          [path @ [CHR 0x09] @ conv_d False 0 (st_size st) @ [CHR 0x09] @
           conv_d False 0 (tv_sec (st_mtim st)) @ ''.'' @
           conv_d True 9 (tv_nsec (st_mtim st)) @ ''0'' @ [CHR 0x09] @
           conv_d False 0
             (if even (st_blocks st) then st_blocks st div 2 else st_blocks st div 2 + 1) @
           [CHR 0x0A]]\<rparr>)"
proof -
  have l: "logical st =
      (if even (st_blocks st) then st_blocks st div 2 else st_blocks st div 2 + 1)"
    using logical_nonneg [OF assms]
    by (simp add: odd_iff_mod_2_eq_one even_iff_mod_2_eq_zero)
  have "2 * logical st - 1 \<le> st_blocks st \<and> st_blocks st \<le> 2 * logical st"
    unfolding l by presburger
  then show ?thesis
    using l by (simp add: cb_file_ok manifest_format)
qed

text \<open>An odd count: 2049 blocks are reported as 1025 kilobytes.\<close>
theorem physical_size_rounds_up_witness:
  "0 \<le> st_blocks stat0 \<and> st_blocks stat0 = 2049 \<and> logical stat0 = 1025
   \<and> nftw_cb True ''/r2/f'' stat0 FTW_F ftw0 init =
      (0, init\<lparr>stdout :=
        [''/r2/f'' @ [CHR 0x09] @ ''1048576'' @ [CHR 0x09] @ ''1700000000.1234567890'' @
         [CHR 0x09] @ ''1025'' @ [CHR 0x0A]]\<rparr>)"
  using physical_size_rounds_up [of stat0 "''/r2/f''" ftw0 init]
  by (simp add: stat0_def init_def conv_d_def dec_nat.simps digit_char_def)

text \<open>
  C4. The record of a regular file is the path, the size in bytes, the modification time and
  the physical size, separated by tabs and ended by a newline; the time is the seconds, a
  dot, the nanoseconds and one character \<open>0\<close>, and for nanoseconds below one thousand
  million the nanosecond field is exactly nine decimal digits that denote that number.
\<close>
theorem manifest_line_layout:
  "nftw_cb True path st FTW_F ftw s =
     (0, s\<lparr>stdout := stdout s @
       [path @ [CHR 0x09] @ conv_d False 0 (st_size st) @ [CHR 0x09] @
        conv_d False 0 (tv_sec (st_mtim st)) @ ''.'' @
        conv_d True 9 (tv_nsec (st_mtim st)) @ ''0'' @ [CHR 0x09] @
        conv_d False 0 (logical st) @ [CHR 0x0A]]\<rparr>)
   \<and> (0 \<le> tv_nsec (st_mtim st) \<and> tv_nsec (st_mtim st) < 1000000000 \<longrightarrow>
        length (conv_d True 9 (tv_nsec (st_mtim st))) = 9
        \<and> list_all is_digit (conv_d True 9 (tv_nsec (st_mtim st)))
        \<and> int (digits_val (conv_d True 9 (tv_nsec (st_mtim st)))) = tv_nsec (st_mtim st))"
  using frac_field [of "tv_nsec (st_mtim st)"]
  by (simp add: cb_file_ok manifest_format list_all_iff)

text \<open>The example of the specification: 1700000000 seconds and 123456789 nanoseconds.\<close>
theorem manifest_line_layout_witness:
  "0 \<le> tv_nsec (st_mtim stat0) \<and> tv_nsec (st_mtim stat0) < 1000000000
   \<and> tv_sec (st_mtim stat0) = 1700000000 \<and> tv_nsec (st_mtim stat0) = 123456789
   \<and> nftw_cb True ''/manta/acct-1/obj-42'' stat0 FTW_F ftw0 init =
      (0, init\<lparr>stdout :=
        [''/manta/acct-1/obj-42'' @ [CHR 0x09] @ ''1048576'' @ [CHR 0x09] @
         ''1700000000.1234567890'' @ [CHR 0x09] @ ''1025'' @ [CHR 0x0A]]\<rparr>)
   \<and> length (conv_d True 9 (tv_nsec (st_mtim stat0))) = 9
   \<and> digits_val (conv_d True 9 (tv_nsec (st_mtim stat0))) = 123456789"
  using manifest_line_layout [of "''/manta/acct-1/obj-42''" stat0 ftw0 init]
  by (simp add: stat0_def init_def conv_d_def dec_nat.simps digit_char_def logical_def
      signed_divide_int_def signed_modulo_int_def)

text \<open>
  C5. Called with an object kind other than the five it knows, the visitor writes no record,
  reports \<^verbatim>\<open><path>: unknown type (<kind>)\<close>, sets the failure flag and returns 1, and the
  walk of the root ends there with that result.
\<close>
theorem unknown_kind_aborts:
  assumes "objtype \<notin> {FTW_F, FTW_D, FTW_SL, FTW_DNR, FTW_NS}"
  shows "nftw_cb wr path st objtype ftw s =
       (1, s\<lparr>stderr := stderr s @
                [Warnx (path @ '': unknown type ('' @ conv_d False 0 objtype @ '')'')],
             error := 1\<rparr>)
    \<and> stdout (snd (nftw_cb wr path st objtype ftw s)) = stdout s
    \<and> error (snd (nftw_cb wr path st objtype ftw s)) = 1
    \<and> nftw_visits nftw_cb
        (\<lparr>v_path = path, v_stat = st, v_type = objtype, v_ftw = ftw, v_wr = wr\<rparr> # vs) fl s =
       (1, s\<lparr>stderr := stderr s @
                [Warnx (path @ '': unknown type ('' @ conv_d False 0 objtype @ '')'')],
             error := 1\<rparr>)"
  using assms by (simp add: cb_unknown unknown_kind_def)

text \<open>Kind 7 is unknown; the file after it in the same root is not visited.\<close>
theorem unknown_kind_aborts_witness:
  "(7::int) \<notin> {FTW_F, FTW_D, FTW_SL, FTW_DNR, FTW_NS}
   \<and> nftw_cb True ''/r1/x'' stat0 7 ftw0 init =
       (1, init\<lparr>stderr := [Warnx ''/r1/x: unknown type (7)''], error := 1\<rparr>)
   \<and> nftw_visits nftw_cb [odd_visit ''/r1/x'' 7, file_visit ''/r1/b'' True] False init =
       (1, init\<lparr>stderr := [Warnx ''/r1/x: unknown type (7)''], error := 1\<rparr>)"
proof -
  have k: "(7::int) \<notin> {FTW_F, FTW_D, FTW_SL, FTW_DNR, FTW_NS}"
    by (simp add: FTW_defs)
  show ?thesis
    using k unknown_kind_aborts [OF k, of True "''/r1/x''" stat0 ftw0 init "[file_visit ''/r1/b'' True]" False]
    by (simp add: init_def conv_d_def dec_nat.simps digit_char_def odd_visit_def)
qed

text \<open>
  C6. For an unreadable directory and for an object that cannot be examined, the visitor
  writes no record, reports \<^verbatim>\<open>Unable to read directory: <path>\<close> or
  \<^verbatim>\<open>stat failed at <path>\<close>, sets the failure flag and returns 0: the walk goes on with the
  objects that follow.
\<close>
theorem unreadable_entries_continue:
  "nftw_cb wr path st FTW_DNR ftw s =
     (0, s\<lparr>stderr := stderr s @ [Warnx (''Unable to read directory: '' @ path)], error := 1\<rparr>)
   \<and> nftw_cb wr path st FTW_NS ftw s =
     (0, s\<lparr>stderr := stderr s @ [Warnx (''stat failed at '' @ path)], error := 1\<rparr>)
   \<and> stdout (snd (nftw_cb wr path st FTW_DNR ftw s)) = stdout s
   \<and> stdout (snd (nftw_cb wr path st FTW_NS ftw s)) = stdout s
   \<and> nftw_visits nftw_cb
        (\<lparr>v_path = path, v_stat = st, v_type = FTW_DNR, v_ftw = ftw, v_wr = wr\<rparr> # vs) fl s =
      nftw_visits nftw_cb vs fl
        (s\<lparr>stderr := stderr s @ [Warnx (''Unable to read directory: '' @ path)], error := 1\<rparr>)
   \<and> nftw_visits nftw_cb
        (\<lparr>v_path = path, v_stat = st, v_type = FTW_NS, v_ftw = ftw, v_wr = wr\<rparr> # vs) fl s =
      nftw_visits nftw_cb vs fl
        (s\<lparr>stderr := stderr s @ [Warnx (''stat failed at '' @ path)], error := 1\<rparr>)"
  by (simp add: cb_dnr cb_ns)

text \<open>
  C9. Without a root argument the program prints its usage message on standard error,
  writes nothing to standard output and exits with status 1; no walk takes place, whatever
  the file system holds.
\<close>
theorem no_roots_usage:
  "main w argv0 [] =
     (1, init\<lparr>stderr := [Usage (''usage: '' @ argv0 @ '' dir1 dir2 ... dirN'' @ [CHR 0x0A])]\<rparr>)
   \<and> fst (main w argv0 []) \<noteq> 0
   \<and> stdout (snd (main w argv0 [])) = []"
  by (simp add: main_def fprintf_stderr_def fmt_usage init_def)

text \<open>
  C1, as amended. When the walk of the first root reaches an object on which the visitor
  aborts (an object of unknown kind, or a record that cannot be written), the walk of that
  root stops at this object, no later root is attempted, and the exit status is 1: the run
  is that of the first root up to the aborting object, and the manifest holds the records of
  the regular files of the first root before that object and nothing else.
\<close>
theorem abort_ends_the_run:
  assumes "visits (w root MAX_DESCRIPTORS (FTW_PHYS OR FTW_MOUNT)) = pre @ v # post"
    and "\<forall>u \<in> set pre. \<not> aborts u" and "aborts v"
  shows "main w argv0 (root # rs) = (1, snd (nftw_visits nftw_cb (pre @ [v]) False init))
    \<and> stdout (snd (main w argv0 (root # rs))) =
        map record_of (filter (\<lambda>u. v_type u = FTW_F) pre)
    \<and> fst (main w argv0 (root # rs)) \<noteq> 0"
proof -
  let ?fl = "FTW_PHYS OR FTW_MOUNT"
  let ?s1 = "snd (nftw_visits nftw_cb (pre @ [v]) False init)"
  have run: "nftw w root nftw_cb MAX_DESCRIPTORS ?fl init = nftw_visits nftw_cb (pre @ [v]) False init"
    using visits_stop [OF assms(2,3)] by (simp add: nftw_def assms(1))
  have ret: "fst (nftw_visits nftw_cb (pre @ [v]) False init) = 1"
    using assms(3) by (simp add: visits_ret)
  have err: "error ?s1 = 1"
    using assms(3) by (simp add: visits_error visit_error_def)
  have out: "stdout ?s1 = map record_of (filter (\<lambda>u. v_type u = FTW_F) pre)"
    using visits_stdout [OF assms(2,3), of False init] by (simp add: init_def)
  have loop: "roots_loop w (root # rs) ?fl init = ?s1"
    using ret by (cases "nftw_visits nftw_cb (pre @ [v]) False init") (simp add: run)
  have m: "main w argv0 (root # rs) = (1, ?s1)"
    using err by (simp add: main_def Let_def loop del: roots_loop.simps)
  show ?thesis using out by (simp add: m)
qed

text \<open>An object of kind 7 in the first of two roots.\<close>
theorem abort_ends_the_run_witness:
  "visits (world1 ''/r1'' MAX_DESCRIPTORS (FTW_PHYS OR FTW_MOUNT)) =
     [file_visit ''/r1/a'' True] @ odd_visit ''/r1/x'' 7 # [file_visit ''/r1/b'' True]
   \<and> \<not> aborts (file_visit ''/r1/a'' True)
   \<and> aborts (odd_visit ''/r1/x'' 7)
   \<and> main world1 ''makofind'' [''/r1'', ''/r2''] =
       (1, \<lparr>error = 1,
            stdout = [''/r1/a'' @ [CHR 0x09] @ ''1048576'' @ [CHR 0x09] @
                      ''1700000000.1234567890'' @ [CHR 0x09] @ ''1025'' @ [CHR 0x0A]],
            stderr = [Warnx ''/r1/x: unknown type (7)'']\<rparr>)"
proof -
  have a: "visits (world1 ''/r1'' MAX_DESCRIPTORS (FTW_PHYS OR FTW_MOUNT)) =
     [file_visit ''/r1/a'' True] @ odd_visit ''/r1/x'' 7 # [file_visit ''/r1/b'' True]"
    by (simp add: world1_def)
  have b: "\<forall>u \<in> set [file_visit ''/r1/a'' True]. \<not> aborts u"
    by (simp add: aborts_def unknown_kind_def emission_fails_def file_visit_def)
  have c: "aborts (odd_visit ''/r1/x'' 7)"
    by (simp add: aborts_def unknown_kind_def odd_visit_def FTW_defs)
  have d: "snd (nftw_visits nftw_cb ([file_visit ''/r1/a'' True] @ [odd_visit ''/r1/x'' 7]) False init) =
       \<lparr>error = 1,
            stdout = [''/r1/a'' @ [CHR 0x09] @ ''1048576'' @ [CHR 0x09] @
                      ''1700000000.1234567890'' @ [CHR 0x09] @ ''1025'' @ [CHR 0x0A]],
            stderr = [Warnx ''/r1/x: unknown type (7)'']\<rparr>"
    by (simp add: run_simps)
  show ?thesis
    using abort_ends_the_run [where w = world1 and root = "''/r1''"
        and pre = "[file_visit ''/r1/a'' True]" and v = "odd_visit ''/r1/x'' 7"
        and post = "[file_visit ''/r1/b'' True]" and ?argv0.0 = "''makofind''"
        and rs = "[''/r2'']", OF a b c] a b c
    by (simp only: d) simp
qed

text \<open>
  C1 as stated fails: the walk of \<^verbatim>\<open>/r1\<close> aborts, \<^verbatim>\<open>/r2\<close> alone yields the record of its
  file, and after \<^verbatim>\<open>/r1\<close> the manifest holds the record of \<^verbatim>\<open>/r1/a\<close> only.
\<close>
theorem second_root_counterexample:
  "fst (nftw world1 ''/r1'' nftw_cb MAX_DESCRIPTORS (FTW_PHYS OR FTW_MOUNT) init) = 1
   \<and> stdout (snd (main world1 ''makofind'' [''/r2''])) =
       [''/r2/f'' @ [CHR 0x09] @ ''1048576'' @ [CHR 0x09] @
        ''1700000000.1234567890'' @ [CHR 0x09] @ ''1025'' @ [CHR 0x0A]]
   \<and> stdout (snd (main world1 ''makofind'' [''/r1'', ''/r2''])) =
       [''/r1/a'' @ [CHR 0x09] @ ''1048576'' @ [CHR 0x09] @
        ''1700000000.1234567890'' @ [CHR 0x09] @ ''1025'' @ [CHR 0x0A]]"
  by (simp add: run_simps)

text \<open>
  C10. The walk of a root returns 1 when the visitor aborts, otherwise \<open>-1\<close> when the walk
  itself fails, otherwise 0. On \<open>-1\<close> the loop reports
  \<^verbatim>\<open>An error occured traversing <root>\<close>, sets the failure flag and goes on with the
  remaining roots; on 0 it goes on as well; only on 1 does it end with roots left over.
\<close>
theorem walk_failure_continues:
  "fst (nftw w r nftw_cb MAX_DESCRIPTORS flags s) =
     (if list_ex aborts (visits (w r MAX_DESCRIPTORS flags)) then 1
      else if fails (w r MAX_DESCRIPTORS flags) then - 1 else 0)
   \<and> (fst (nftw w r nftw_cb MAX_DESCRIPTORS flags s) = - 1 \<longrightarrow>
        roots_loop w (r # rs) flags s =
          roots_loop w rs flags
            ((snd (nftw w r nftw_cb MAX_DESCRIPTORS flags s))
               \<lparr>stderr := stderr (snd (nftw w r nftw_cb MAX_DESCRIPTORS flags s)) @
                            [Warn (''An error occured traversing '' @ r)],
                error := 1\<rparr>)
        \<and> error (roots_loop w (r # rs) flags s) = 1)
   \<and> (fst (nftw w r nftw_cb MAX_DESCRIPTORS flags s) = 0 \<longrightarrow>
        roots_loop w (r # rs) flags s =
          roots_loop w rs flags (snd (nftw w r nftw_cb MAX_DESCRIPTORS flags s)))
   \<and> (fst (nftw w r nftw_cb MAX_DESCRIPTORS flags s) = 1 \<longrightarrow>
        roots_loop w (r # rs) flags s = snd (nftw w r nftw_cb MAX_DESCRIPTORS flags s))"
proof -
  obtain ret s1 where n: "nftw w r nftw_cb MAX_DESCRIPTORS flags s = (ret, s1)"
    by (cases "nftw w r nftw_cb MAX_DESCRIPTORS flags s")
  have e: "ret = - 1 \<Longrightarrow> error (roots_loop w (r # rs) flags s) = 1"
    using nftw_ret [of w r MAX_DESCRIPTORS flags s] n
    by (simp add: loop_error walk_error_def del: roots_loop.simps split: if_splits)
  show ?thesis
    using nftw_ret [of w r MAX_DESCRIPTORS flags s] e
    by (simp add: n warn_def fmt_traversing)
qed

text \<open>A root that cannot be opened, followed by a root with one file.\<close>
theorem walk_failure_continues_witness:
  "fst (nftw world1 ''/gone'' nftw_cb MAX_DESCRIPTORS (FTW_PHYS OR FTW_MOUNT) init) = - 1
   \<and> main world1 ''makofind'' [''/gone'', ''/r2''] =
       (1, \<lparr>error = 1,
            stdout = [''/r2/f'' @ [CHR 0x09] @ ''1048576'' @ [CHR 0x09] @
                      ''1700000000.1234567890'' @ [CHR 0x09] @ ''1025'' @ [CHR 0x0A]],
            stderr = [Warn ''An error occured traversing /gone'']\<rparr>)"
proof -
  have g: "nftw world1 ''/gone'' nftw_cb MAX_DESCRIPTORS (FTW_PHYS OR FTW_MOUNT) init = (- 1, init)"
    by (simp add: nftw_def world1_def)
  have r2: "roots_loop world1 [''/r2''] (FTW_PHYS OR FTW_MOUNT)
           (init\<lparr>stderr := stderr init @ [Warn (''An error occured traversing '' @ ''/gone'')], error := 1\<rparr>)
      = \<lparr>error = 1,
            stdout = [''/r2/f'' @ [CHR 0x09] @ ''1048576'' @ [CHR 0x09] @
                      ''1700000000.1234567890'' @ [CHR 0x09] @ ''1025'' @ [CHR 0x0A]],
            stderr = [Warn ''An error occured traversing /gone'']\<rparr>"
    by (simp add: run_simps)
  have "roots_loop world1 (''/gone'' # [''/r2'']) (FTW_PHYS OR FTW_MOUNT) init =
       \<lparr>error = 1,
            stdout = [''/r2/f'' @ [CHR 0x09] @ ''1048576'' @ [CHR 0x09] @
                      ''1700000000.1234567890'' @ [CHR 0x09] @ ''1025'' @ [CHR 0x0A]],
            stderr = [Warn ''An error occured traversing /gone'']\<rparr>"
    using walk_failure_continues [of world1 "''/gone''" "FTW_PHYS OR FTW_MOUNT" init "[''/r2'']"]
    by (simp only: g fst_conv snd_conv r2)
  then show ?thesis
    by (simp add: main_def Let_def g del: roots_loop.simps)
qed

text \<open>
  C7. No operation clears the failure flag: after each of them the flag has the value it had
  or the value 1. For a run over the roots given on the command line, the exit status is the
  flag at the end, it is 0 or 1, and it is 0 exactly when no per-entry error and no abort
  occurred on any root.
\<close>
theorem failure_flag_and_exit_status:
  "error (nftw_warn fmt as s) = 1
   \<and> error (snd (nftw_cb wr path st objtype ftw s)) \<in> {error s, 1}
   \<and> error (snd (nftw w r nftw_cb nfds flags s)) \<in> {error s, 1}
   \<and> error (roots_loop w rs flags s) \<in> {error s, 1}
   \<and> (roots \<noteq> [] \<longrightarrow>
        fst (main w argv0 roots) = error (snd (main w argv0 roots))
        \<and> fst (main w argv0 roots) \<in> {0, 1}
        \<and> (fst (main w argv0 roots) = 0 \<longleftrightarrow>
             (\<forall>r \<in> set roots. \<not> walk_error (w r MAX_DESCRIPTORS (FTW_PHYS OR FTW_MOUNT)))))"
proof -
  have "error (snd (nftw_cb wr path st objtype ftw s)) \<in> {error s, 1}"
    using cb_error [of "\<lparr>v_path = path, v_stat = st, v_type = objtype, v_ftw = ftw, v_wr = wr\<rparr>" s]
    by (simp split: if_splits)
  moreover have "roots \<noteq> [] \<Longrightarrow> main w argv0 roots =
      (error (roots_loop w roots (FTW_PHYS OR FTW_MOUNT) init),
       roots_loop w roots (FTW_PHYS OR FTW_MOUNT) init)"
    by (cases roots) (simp_all add: main_def Let_def del: roots_loop.simps)
  ultimately show ?thesis
    by (simp add: nftw_warn_def nftw_error loop_error list_ex_iff init_def)
qed

text \<open>A clean root alone exits with 0; followed by a root with an unknown object, with 1.\<close>
theorem failure_flag_and_exit_status_witness:
  "[''/r2''] \<noteq> [] \<and> fst (main world1 ''makofind'' [''/r2'']) = 0
   \<and> \<not> walk_error (world1 ''/r2'' MAX_DESCRIPTORS (FTW_PHYS OR FTW_MOUNT))
   \<and> walk_error (world1 ''/r1'' MAX_DESCRIPTORS (FTW_PHYS OR FTW_MOUNT))
   \<and> fst (main world1 ''makofind'' [''/r2'', ''/r1'']) = 1"
proof -
  have a: "\<not> walk_error (world1 ''/r2'' MAX_DESCRIPTORS (FTW_PHYS OR FTW_MOUNT))"
    by (simp add: walk_error_def world1_def visit_error_def entry_unreadable_def aborts_def
        unknown_kind_def emission_fails_def file_visit_def FTW_defs)
  have b: "walk_error (world1 ''/r1'' MAX_DESCRIPTORS (FTW_PHYS OR FTW_MOUNT))"
    by (simp add: walk_error_def world1_def visit_error_def entry_unreadable_def aborts_def
        unknown_kind_def emission_fails_def file_visit_def odd_visit_def FTW_defs)
  show ?thesis
    using a b
      failure_flag_and_exit_status [of "''''" "[]" init True "''''" stat0 0 ftw0 world1 "''''" 0 0 "[]"
        "[''/r2'']" "''makofind''"]
      failure_flag_and_exit_status [of "''''" "[]" init True "''''" stat0 0 ftw0 world1 "''''" 0 0 "[]"
        "[''/r2'', ''/r1'']" "''makofind''"]
    by auto
qed

text \<open>
  C8. When \<^verbatim>\<open>nftw\<close> is the Walker of the specification, every record of the manifest is
  the record of a regular file that is reached from one of the roots by descending through
  directories only, never through a symbolic link, the file and every directory on the way
  being on the device of that root; every object presented to the visitor with a \<^verbatim>\<open>stat\<close>
  is on the device of its root; and the visitor writes nothing for a symbolic link and lets
  the walk go on.
\<close>
theorem manifest_stays_physical:
  "(l \<in> set (stdout (snd (main (fs_world fs wr other) argv0 roots))) \<longrightarrow>
      (\<exists>r \<in> set roots. \<exists>t p st.
         fs r = Some t \<and> phys (root_dev t) r t p st \<and> l = file_record p st))
   \<and> (fs r = Some t \<longrightarrow>
        v \<in> set (visits (fs_world fs wr other r MAX_DESCRIPTORS (FTW_PHYS OR FTW_MOUNT))) \<longrightarrow>
        v_type v \<noteq> FTW_NS \<longrightarrow> st_dev (v_stat v) = root_dev t)
   \<and> nftw_cb b path st FTW_SL ftw s = (0, s)"
proof (intro conjI impI)
  let ?fl = "FTW_PHYS OR FTW_MOUNT"
  let ?w = "fs_world fs wr other"
  show "nftw_cb b path st FTW_SL ftw s = (0, s)"
    by (simp add: cb_skip)
  show "st_dev (v_stat v) = root_dev t"
    if "fs r = Some t" and "v \<in> set (visits (?w r MAX_DESCRIPTORS ?fl))" and "v_type v \<noteq> FTW_NS"
    using that main_flags root_walk_dev [of v MAX_DESCRIPTORS wr r t]
    by (simp add: fs_world_def)
  show "\<exists>r \<in> set roots. \<exists>t p st.
         fs r = Some t \<and> phys (root_dev t) r t p st \<and> l = file_record p st"
    if out: "l \<in> set (stdout (snd (main ?w argv0 roots)))"
  proof (cases roots)
    case Nil
    with out show ?thesis
      by (simp add: main_def fprintf_stderr_def init_def)
  next
    case (Cons a list)
    with out have "l \<in> set (stdout (roots_loop ?w roots ?fl init))"
      by (simp add: main_def Let_def del: roots_loop.simps)
    with loop_records [of ?w roots ?fl init]
    obtain r v where r: "r \<in> set roots" and v: "v \<in> set (visits (?w r MAX_DESCRIPTORS ?fl))"
      and f: "v_type v = FTW_F" and l: "l = record_of v"
      by (auto simp: init_def)
    from v main_flags obtain t where t: "fs r = Some t"
      and vt: "v \<in> set (visits (root_walk MAX_DESCRIPTORS wr r t))"
      by (auto simp: fs_world_def split: option.splits)
    from root_walk_files [OF vt f] have "phys (root_dev t) r t (v_path v) (v_stat v)" .
    with r t l show ?thesis
      by (auto simp: record_of_file_record)
  qed
qed

text \<open>
  The root \<^verbatim>\<open>/a\<close> of the example: the manifest holds the record of \<^verbatim>\<open>/a/f\<close> and neither
  that of \<^verbatim>\<open>/a/l/g\<close>, behind the symbolic link, nor that of \<^verbatim>\<open>/a/b/h\<close>, on the other
  device.
\<close>
theorem manifest_stays_physical_witness:
  "stdout (snd (main (fs_world fs1 (\<lambda>p. True) quiet) ''makofind'' [''/a''])) =
     [''/a/f'' @ [CHR 0x09] @ ''1048576'' @ [CHR 0x09] @ ''1700000000.1234567890'' @
      [CHR 0x09] @ ''1025'' @ [CHR 0x0A]]
   \<and> (\<exists>r \<in> set [''/a'']. \<exists>t p st.
         fs1 r = Some t \<and> phys (root_dev t) r t p st \<and>
         ''/a/f'' @ [CHR 0x09] @ ''1048576'' @ [CHR 0x09] @ ''1700000000.1234567890'' @
           [CHR 0x09] @ ''1025'' @ [CHR 0x0A] = file_record p st)"
proof -
  have out: "stdout (snd (main (fs_world fs1 (\<lambda>p. True) quiet) ''makofind'' [''/a''])) =
     [''/a/f'' @ [CHR 0x09] @ ''1048576'' @ [CHR 0x09] @ ''1700000000.1234567890'' @
      [CHR 0x09] @ ''1025'' @ [CHR 0x0A]]"
    by (simp add: fs1_run stat_on_record)
  show ?thesis
    using manifest_stays_physical [of "''/a/f'' @ [CHR 0x09] @ ''1048576'' @ [CHR 0x09] @
        ''1700000000.1234567890'' @ [CHR 0x09] @ ''1025'' @ [CHR 0x0A]"
        fs1 "\<lambda>p. True" quiet "''makofind''" "[''/a'']"]
    by (simp only: out) simp
qed

end
